theory Spec2Isabelle
  imports Main "HOL-Library.Sublist" "HOL-Library.Word" "HOL-Library.AList"
begin

section \<open>JavaScript values used by the sources\<close>

text \<open>
  Strings are character lists. Clock readings (\<open>Date.now()\<close>), counters and time-to-live
  values are integers of the range up to \<open>2^53\<close>, where JavaScript's arithmetic is exact;
  they are modelled as integers. A number that the sources parse out of a message can be
  any size: for it the rounding to a double is modelled (\<open>toDouble\<close> below).
  An optional field or argument (\<open>x?: T\<close>, possibly \<open>undefined\<close>) is an \<open>option\<close>.
\<close>

text \<open>Truthiness of an optional string: \<open>undefined\<close> and the empty string are falsy.\<close>

fun truthy_string :: "string option \<Rightarrow> bool" where
  "truthy_string None = False"
| "truthy_string (Some s) = (s \<noteq> [])"

text \<open>Truthiness of an optional number: \<open>undefined\<close> and \<open>0\<close> are falsy.\<close>

fun truthy_number :: "int option \<Rightarrow> bool" where
  "truthy_number None = False"
| "truthy_number (Some n) = (n \<noteq> 0)"

text \<open>\<open>/\d/\<close>: the ASCII digits.\<close>

definition isDigit :: "char \<Rightarrow> bool" where
  "isDigit c = (48 \<le> (of_char c :: nat) \<and> (of_char c :: nat) \<le> 57)"

definition digit_char :: "nat \<Rightarrow> char" where
  "digit_char d = char_of (48 + d)"

text \<open>Decimal digits of a natural number, most significant first.\<close>

fun digits_of :: "nat \<Rightarrow> string" where
  "digits_of n = (if n < 10 then [digit_char n] else digits_of (n div 10) @ [digit_char (n mod 10)])"

declare digits_of.simps [simp del]

text \<open>
  \<open>String(n)\<close> and \<open>`${n}`\<close> for an integer \<open>n\<close> of magnitude up to \<open>2^53\<close>, as clock
  readings and id counters are: plain decimal notation.
\<close>

definition number_toString :: "int \<Rightarrow> string" where
  "number_toString n = (if n < 0 then CHR ''-'' # digits_of (nat (- n)) else digits_of (nat n))"

text \<open>
  The mathematical integer that a string of decimal digits denotes: the \<open>mathInt\<close> of
  \<open>parseInt(s, 10)\<close>, which the sources apply to captures of \<open>(\d+)\<close> only.
\<close>

definition parseInt10 :: "string \<Rightarrow> int" where
  "parseInt10 s = foldl (\<lambda>a c. 10 * a + (int (of_char c) - 48)) 0 s"

text \<open>
  The numbers that the timestamp check computes with: integer-valued doubles and the two
  infinities. \<open>toDouble n\<close> is the Number value for the mathematical integer \<open>n\<close>: \<open>n\<close>
  itself up to magnitude \<open>2^53\<close>, above that the nearest multiple of the spacing
  \<open>2^(e - 52)\<close> for \<open>2^e \<le> \<bar>n\<bar> < 2^(e + 1)\<close>, ties going to the even multiple, and an
  infinity when the rounded magnitude reaches \<open>2^1024\<close> (needs more than 1024 bits).
\<close>

datatype number = Finite int | PosInfinity | NegInfinity

function bit_length :: "int \<Rightarrow> nat" where
  "bit_length n = (if n \<le> 0 then 0 else Suc (bit_length (n div 2)))"
  by pat_completeness auto
termination
  by (relation "measure nat") auto

declare bit_length.simps [simp del]

definition round_magnitude :: "int \<Rightarrow> int" where
  "round_magnitude a =
     (if a \<le> 2 ^ 53 then a
      else (let q = 2 ^ (bit_length a - 53); k = a div q; r = a mod q
            in if 2 * r < q then k * q
               else if q < 2 * r then (k + 1) * q
               else if even k then k * q
               else (k + 1) * q))"

definition toDouble :: "int \<Rightarrow> number" where
  "toDouble n =
     (let m = round_magnitude \<bar>n\<bar>
      in if 1024 < bit_length m then (if n < 0 then NegInfinity else PosInfinity)
         else Finite (if n < 0 then - m else m))"

text \<open>
  \<open>parseInt(s, 10)\<close> on a string of decimal digits: the Number value for its integer,
  correctly rounded from all the digits.
\<close>

definition parseInt :: "string \<Rightarrow> number" where
  "parseInt s = toDouble (parseInt10 s)"

text \<open>
  \<open>a - b\<close> for a clock reading \<open>a\<close> (an integer that is a Number as it stands) and a parsed
  number \<open>b\<close>: the exact difference, rounded.
\<close>

fun number_sub :: "int \<Rightarrow> number \<Rightarrow> number" where
  "number_sub a (Finite b) = toDouble (a - b)"
| "number_sub a PosInfinity = NegInfinity"
| "number_sub a NegInfinity = PosInfinity"

text \<open>\<open>x < b\<close> for a computed number \<open>x\<close> and an integer-valued limit \<open>b\<close>.\<close>

fun number_less :: "number \<Rightarrow> int \<Rightarrow> bool" where
  "number_less (Finite a) b = (a < b)"
| "number_less PosInfinity b = False"
| "number_less NegInfinity b = True"

section \<open>Challenge generator and timestamp check (core utils)\<close>

text \<open>
  \<open>message.match(/Timestamp: (\d+)/)\<close>: the leftmost position where the literal text is
  followed by at least one digit; the capture group is the longest run of digits there.
  \<open>None\<close> is the \<open>null\<close> of a failed match.
\<close>

definition matchAt :: "string \<Rightarrow> bool" where
  "matchAt s = (prefix ''Timestamp: '' s \<and> takeWhile isDigit (drop 11 s) \<noteq> [])"

fun timestampMatch :: "string \<Rightarrow> string option" where
  "timestampMatch [] = None"
| "timestampMatch (c # cs) =
     (if matchAt (c # cs) then Some (takeWhile isDigit (drop 11 (c # cs)))
      else timestampMatch cs)"

text \<open>
  \<open>generateSignatureMessage(appName, nonce?)\<close>. The clock reading \<open>Date.now()\<close> and the
  string \<open>Math.random().toString(36).substring(7)\<close> are inputs of the model (\<open>now\<close>, \<open>rnd\<close>).
\<close>

definition nonceStr :: "string option \<Rightarrow> string \<Rightarrow> string" where
  "nonceStr nonce rnd = (if truthy_string nonce then the nonce else rnd)"

definition generateSignatureMessage :: "string \<Rightarrow> string option \<Rightarrow> string \<Rightarrow> int \<Rightarrow> string" where
  "generateSignatureMessage appName nonce rnd now =
     appName @ '' wants you to sign in with your Solana account.'' @ [CHR 0x0A, CHR 0x0A]
       @ ''Nonce: '' @ nonceStr nonce rnd @ [CHR 0x0A] @ ''Timestamp: '' @ number_toString now"

text \<open>
  \<open>isMessageTimestampValid(message, maxAgeMs)\<close> at clock reading \<open>now\<close>, for an
  integer-valued \<open>maxAgeMs\<close>.
\<close>

definition isMessageTimestampValid :: "string \<Rightarrow> int \<Rightarrow> int \<Rightarrow> bool" where
  "isMessageTimestampValid message maxAgeMs now =
     (case timestampMatch message of
        None \<Rightarrow> False
      | Some m \<Rightarrow> number_less (number_sub now (parseInt m)) maxAgeMs)"

text \<open>
  The external primitives the sources call: the \<open>PublicKey\<close> constructor, \<open>bs58.decode\<close>,
  \<open>TextEncoder.encode\<close>, \<open>nacl.sign.detached.verify\<close> and the built-in
  \<open>decodeURIComponent\<close>. \<open>None\<close> stands for a thrown exception.
\<close>

type_synonym bytes = "8 word list"

record externals =
  PublicKey_toBytes :: "string \<Rightarrow> bytes option"
  bs58_decode :: "string \<Rightarrow> bytes option"
  TextEncoder_encode :: "string \<Rightarrow> bytes"
  nacl_verify :: "bytes \<Rightarrow> bytes \<Rightarrow> bytes \<Rightarrow> bool option"
  decodeURIComponent :: "string \<Rightarrow> string option"

text \<open>\<open>verifySignature(message, signature, publicKey)\<close>: any exception is caught and gives false.\<close>

definition verifySignature :: "externals \<Rightarrow> string \<Rightarrow> string \<Rightarrow> string \<Rightarrow> bool" where
  "verifySignature ext message signature publicKey =
     (case bs58_decode ext signature of
        None \<Rightarrow> False
      | Some signatureBytes \<Rightarrow>
          (case PublicKey_toBytes ext publicKey of
             None \<Rightarrow> False
           | Some publicKeyBytes \<Rightarrow>
               (case nacl_verify ext (TextEncoder_encode ext message) signatureBytes publicKeyBytes of
                  None \<Rightarrow> False
                | Some b \<Rightarrow> b)))"

text \<open>\<open>isValidPublicKey(publicKey)\<close>: whether the constructor accepts the string.\<close>

definition isValidPublicKey :: "externals \<Rightarrow> string \<Rightarrow> bool" where
  "isValidPublicKey ext publicKey = (PublicKey_toBytes ext publicKey \<noteq> None)"

section \<open>Signature verifier (server auth)\<close>

record VerifySignatureResult =
  valid :: bool
  publicKey :: "string option"
  error :: "string option"
  timestamp :: "number option"

text \<open>
  \<open>verifyWalletSignature({publicKey, signature, message, checkTimestamp, maxAgeMs})\<close>. None of
  the calls in its \<open>try\<close> block throws (both helpers catch their own exceptions), so the
  \<open>catch\<close> branch has no counterpart here.
\<close>

definition verifyWalletSignature ::
  "externals \<Rightarrow> string \<Rightarrow> string \<Rightarrow> string \<Rightarrow> bool \<Rightarrow> int \<Rightarrow> int \<Rightarrow> VerifySignatureResult" where
  "verifyWalletSignature ext pk signature message checkTimestamp maxAgeMs now =
     (if \<not> isValidPublicKey ext pk then
        \<lparr>valid = False, publicKey = None, error = Some ''Invalid public key format'', timestamp = None\<rparr>
      else if checkTimestamp \<and> \<not> isMessageTimestampValid message maxAgeMs now then
        \<lparr>valid = False, publicKey = None, error = Some ''Message timestamp expired or invalid'',
         timestamp = None\<rparr>
      else if verifySignature ext message signature pk then
        \<lparr>valid = True, publicKey = Some pk, error = None,
         timestamp = map_option parseInt (timestampMatch message)\<rparr>
      else
        \<lparr>valid = False, publicKey = None, error = Some ''Invalid signature'', timestamp = None\<rparr>)"


section \<open>User linking (server user-linking)\<close>

text \<open>
  Field names that several interfaces of the sources share (\<open>publicKey\<close>, \<open>userId\<close>, \<open>email\<close>,
  \<open>metadata\<close>, \<open>id\<close>) carry a prefix here, since record fields are global constants.
  A \<open>Record<string, any>\<close> is an association list from keys to values in insertion order.
\<close>

type_synonym metadata = "(string \<times> string) list"

record UserRecord =
  user_id :: string
  walletPublicKey :: "string option"
  email :: "string option"
  walletConnectedAt :: "int option"
  metadata :: "metadata option"

record UserLinkOptions =
  link_publicKey :: string
  existingUserId :: "string option"
  link_email :: "string option"
  link_metadata :: "metadata option"

text \<open>
  A property of an object literal of type \<open>Partial<UserRecord>\<close> is either not written at
  all, or written with a value that may be \<open>undefined\<close>. Reading it gives \<open>undefined\<close> in
  both cases; spreading the object over another one overwrites only with written properties.
  No caller in the sources writes the \<open>id\<close> property; a written \<open>id\<close> is a string.
\<close>

datatype 'a property = Absent | Present 'a

fun read_prop :: "'a option property \<Rightarrow> 'a option" where
  "read_prop Absent = None"
| "read_prop (Present v) = v"

fun spread_prop :: "'a \<Rightarrow> 'a property \<Rightarrow> 'a" where
  "spread_prop old Absent = old"
| "spread_prop old (Present v) = v"

record PartialUserRecord =
  p_id :: "string property"
  p_walletPublicKey :: "string option property"
  p_email :: "string option property"
  p_walletConnectedAt :: "int option property"
  p_metadata :: "metadata option property"

text \<open>\<open>{ ...user, ...data }\<close>\<close>

definition spread_user :: "UserRecord \<Rightarrow> PartialUserRecord \<Rightarrow> UserRecord" where
  "spread_user user data =
     \<lparr>user_id = spread_prop (user_id user) (p_id data),
      walletPublicKey = spread_prop (walletPublicKey user) (p_walletPublicKey data),
      email = spread_prop (email user) (p_email data),
      walletConnectedAt = spread_prop (walletConnectedAt user) (p_walletConnectedAt data),
      metadata = spread_prop (metadata user) (p_metadata data)\<rparr>"

text \<open>\<open>{ ...a, ...b }\<close> on two optional metadata objects: spreading \<open>undefined\<close> adds nothing.\<close>

definition own_entries :: "metadata option \<Rightarrow> metadata" where
  "own_entries m = (case m of None \<Rightarrow> [] | Some kvs \<Rightarrow> kvs)"

definition spread_metadata :: "metadata option \<Rightarrow> metadata option \<Rightarrow> metadata" where
  "spread_metadata a b = fold (\<lambda>(k, v) acc. AList.update k v acc) (own_entries b) (own_entries a)"

text \<open>An exception: \<open>new Error(message)\<close>.\<close>

datatype error = Error string

text \<open>
  The \<open>UserStore\<close> interface, over the state \<open>'s\<close> of an implementation. Every operation
  returns the value or the thrown error, with the state it leaves behind.
\<close>

record 's UserStore =
  findByPublicKey :: "string \<Rightarrow> 's \<Rightarrow> (error + UserRecord option) \<times> 's"
  findByUserId :: "string \<Rightarrow> 's \<Rightarrow> (error + UserRecord option) \<times> 's"
  findByEmail :: "string \<Rightarrow> 's \<Rightarrow> (error + UserRecord option) \<times> 's"
  create :: "PartialUserRecord \<Rightarrow> 's \<Rightarrow> (error + UserRecord) \<times> 's"
  update :: "string \<Rightarrow> PartialUserRecord \<Rightarrow> 's \<Rightarrow> (error + UserRecord) \<times> 's"

subsection \<open>UserLinkingManager\<close>

text \<open>The object literals that \<open>linkOrCreateUser\<close> passes to \<open>update\<close> and \<open>create\<close>.\<close>

definition link_update_data :: "UserLinkOptions \<Rightarrow> int \<Rightarrow> UserRecord \<Rightarrow> PartialUserRecord" where
  "link_update_data options now user =
     \<lparr>p_id = Absent,
      p_walletPublicKey = Present (Some (link_publicKey options)),
      p_email = Absent,
      p_walletConnectedAt = Present (Some now),
      p_metadata = Present (Some (spread_metadata (metadata user) (link_metadata options)))\<rparr>"

definition link_create_data :: "UserLinkOptions \<Rightarrow> int \<Rightarrow> PartialUserRecord" where
  "link_create_data options now =
     \<lparr>p_id = Absent,
      p_walletPublicKey = Present (Some (link_publicKey options)),
      p_email = Present (link_email options),
      p_walletConnectedAt = Present (Some now),
      p_metadata = Present (link_metadata options)\<rparr>"

text \<open>
  \<open>linkOrCreateUser(options)\<close> at clock reading \<open>now\<close> (each path reads the clock once).
  An error thrown by a store call leaves the function at once: there is no \<open>try\<close> in it.
\<close>

definition linkOrCreateUser ::
  "'s UserStore \<Rightarrow> UserLinkOptions \<Rightarrow> int \<Rightarrow> 's \<Rightarrow> (error + UserRecord) \<times> 's" where
  "linkOrCreateUser userStore options now s =
     (case findByPublicKey userStore (link_publicKey options) s of
        (Inl e, s1) \<Rightarrow> (Inl e, s1)
      | (Inr (Some existingWallet), s1) \<Rightarrow> (Inr existingWallet, s1)
      | (Inr None, s1) \<Rightarrow>
          if truthy_string (existingUserId options) then
            (case findByUserId userStore (the (existingUserId options)) s1 of
               (Inl e, s2) \<Rightarrow> (Inl e, s2)
             | (Inr None, s2) \<Rightarrow> (Inl (Error ''User not found''), s2)
             | (Inr (Some user), s2) \<Rightarrow>
                 if truthy_string (walletPublicKey user)
                 then (Inl (Error ''User already has a linked wallet''), s2)
                 else update userStore (the (existingUserId options))
                        (link_update_data options now user) s2)
          else if truthy_string (link_email options) then
            (case findByEmail userStore (the (link_email options)) s1 of
               (Inl e, s2) \<Rightarrow> (Inl e, s2)
             | (Inr (Some user), s2) \<Rightarrow>
                 if truthy_string (walletPublicKey user)
                 then (Inl (Error ''Email already has a linked wallet''), s2)
                 else update userStore (user_id user) (link_update_data options now user) s2
             | (Inr None, s2) \<Rightarrow> create userStore (link_create_data options now) s2)
          else create userStore (link_create_data options now) s1)"

definition unlink_data :: PartialUserRecord where
  "unlink_data =
     \<lparr>p_id = Absent, p_walletPublicKey = Present None, p_email = Absent,
      p_walletConnectedAt = Present None, p_metadata = Absent\<rparr>"

definition unlinkWallet :: "'s UserStore \<Rightarrow> string \<Rightarrow> 's \<Rightarrow> (error + UserRecord) \<times> 's" where
  "unlinkWallet userStore userId s =
     (case findByUserId userStore userId s of
        (Inl e, s1) \<Rightarrow> (Inl e, s1)
      | (Inr None, s1) \<Rightarrow> (Inl (Error ''User not found''), s1)
      | (Inr (Some user), s1) \<Rightarrow> update userStore userId unlink_data s1)"

definition getUserByPublicKey ::
  "'s UserStore \<Rightarrow> string \<Rightarrow> 's \<Rightarrow> (error + UserRecord option) \<times> 's" where
  "getUserByPublicKey userStore pk s = findByPublicKey userStore pk s"

definition isWalletLinked :: "'s UserStore \<Rightarrow> string \<Rightarrow> 's \<Rightarrow> (error + bool) \<times> 's" where
  "isWalletLinked userStore pk s =
     (case findByPublicKey userStore pk s of
        (Inl e, s1) \<Rightarrow> (Inl e, s1)
      | (Inr user, s1) \<Rightarrow> (Inr (user \<noteq> None), s1))"

subsection \<open>MemoryUserStore\<close>

record MemoryUserStore =
  users :: "string \<rightharpoonup> UserRecord"
  emailIndex :: "string \<rightharpoonup> string"
  walletIndex :: "string \<rightharpoonup> string"
  nextId :: int

definition new_MemoryUserStore :: MemoryUserStore where
  "new_MemoryUserStore =
     \<lparr>users = Map.empty, emailIndex = Map.empty, walletIndex = Map.empty, nextId = 1\<rparr>"

definition mem_findByPublicKey :: "MemoryUserStore \<Rightarrow> string \<Rightarrow> UserRecord option" where
  "mem_findByPublicKey s pk =
     (if \<not> truthy_string (walletIndex s pk) then None else users s (the (walletIndex s pk)))"

definition mem_findByUserId :: "MemoryUserStore \<Rightarrow> string \<Rightarrow> UserRecord option" where
  "mem_findByUserId s userId = users s userId"

definition mem_findByEmail :: "MemoryUserStore \<Rightarrow> string \<Rightarrow> UserRecord option" where
  "mem_findByEmail s em =
     (if \<not> truthy_string (emailIndex s em) then None else users s (the (emailIndex s em)))"

definition mem_create :: "MemoryUserStore \<Rightarrow> PartialUserRecord \<Rightarrow> UserRecord \<times> MemoryUserStore" where
  "mem_create s data =
     (let given = (case p_id data of Absent \<Rightarrow> [] | Present i \<Rightarrow> i);
          s0 = (if given \<noteq> [] then s else s\<lparr>nextId := nextId s + 1\<rparr>);
          user = \<lparr>user_id = (if given \<noteq> [] then given else number_toString (nextId s)),
                  walletPublicKey = read_prop (p_walletPublicKey data),
                  email = read_prop (p_email data),
                  walletConnectedAt = read_prop (p_walletConnectedAt data),
                  metadata = Some (own_entries (read_prop (p_metadata data)))\<rparr>;
          s1 = s0\<lparr>users := (users s0)(user_id user \<mapsto> user)\<rparr>;
          s2 = (if truthy_string (email user)
                then s1\<lparr>emailIndex := (emailIndex s1)(the (email user) \<mapsto> user_id user)\<rparr>
                else s1);
          s3 = (if truthy_string (walletPublicKey user)
                then s2\<lparr>walletIndex := (walletIndex s2)(the (walletPublicKey user) \<mapsto> user_id user)\<rparr>
                else s2)
      in (user, s3))"

definition mem_update ::
  "MemoryUserStore \<Rightarrow> string \<Rightarrow> PartialUserRecord \<Rightarrow> (error + UserRecord) \<times> MemoryUserStore" where
  "mem_update s userId data =
     (case users s userId of
        None \<Rightarrow> (Inl (Error ''User not found''), s)
      | Some user \<Rightarrow>
          (let data_email = read_prop (p_email data);
               data_wallet = read_prop (p_walletPublicKey data);
               s1 = (if truthy_string data_email \<and> data_email \<noteq> email user
                     then (let e0 = (if truthy_string (email user)
                                     then (emailIndex s)(the (email user) := None)
                                     else emailIndex s)
                           in s\<lparr>emailIndex := e0(the data_email \<mapsto> userId)\<rparr>)
                     else s);
               s2 = (if data_wallet \<noteq> None
                     then (let w0 = (if truthy_string (walletPublicKey user)
                                     then (walletIndex s1)(the (walletPublicKey user) := None)
                                     else walletIndex s1);
                               w1 = (if truthy_string data_wallet
                                     then w0(the data_wallet \<mapsto> userId)
                                     else w0)
                           in s1\<lparr>walletIndex := w1\<rparr>)
                     else s1);
               updatedUser = spread_user user data
           in (Inr updatedUser, s2\<lparr>users := (users s2)(userId \<mapsto> updatedUser)\<rparr>)))"

text \<open>The in-memory store as an implementation of the interface.\<close>

definition memoryUserStore :: "MemoryUserStore UserStore" where
  "memoryUserStore =
     \<lparr>findByPublicKey = (\<lambda>pk s. (Inr (mem_findByPublicKey s pk), s)),
      findByUserId = (\<lambda>userId s. (Inr (mem_findByUserId s userId), s)),
      findByEmail = (\<lambda>em s. (Inr (mem_findByEmail s em), s)),
      create = (\<lambda>data s. apfst Inr (mem_create s data)),
      update = (\<lambda>userId data s. mem_update s userId data)\<rparr>"

subsection \<open>Sequential use of the manager over the in-memory store\<close>

text \<open>
  One call of a \<open>UserLinkingManager\<close> method; \<open>call_effect\<close> is the store it leaves behind,
  whether the call returned or threw, and \<open>run_calls\<close> executes a sequence of calls one
  after the other on a freshly constructed store.
\<close>

datatype manager_call =
    LinkOrCreateUser UserLinkOptions int
  | UnlinkWallet string
  | GetUserByPublicKey string
  | IsWalletLinked string

fun call_effect :: "manager_call \<Rightarrow> MemoryUserStore \<Rightarrow> MemoryUserStore" where
  "call_effect (LinkOrCreateUser options now) s = snd (linkOrCreateUser memoryUserStore options now s)"
| "call_effect (UnlinkWallet userId) s = snd (unlinkWallet memoryUserStore userId s)"
| "call_effect (GetUserByPublicKey pk) s = snd (getUserByPublicKey memoryUserStore pk s)"
| "call_effect (IsWalletLinked pk) s = snd (isWalletLinked memoryUserStore pk s)"

definition run_calls :: "manager_call list \<Rightarrow> MemoryUserStore" where
  "run_calls calls = fold call_effect calls new_MemoryUserStore"

text \<open>
  Two facts about the states of the in-memory store that the manager can reach: every
  record is stored under its own, non-empty id, and every record with a non-empty wallet
  key is the one the wallet index points to for that key.
\<close>

definition ids_consistent :: "MemoryUserStore \<Rightarrow> bool" where
  "ids_consistent s = (\<forall>i u. users s i = Some u \<longrightarrow> user_id u = i \<and> i \<noteq> [])"

definition wallets_indexed :: "MemoryUserStore \<Rightarrow> bool" where
  "wallets_indexed s =
     (\<forall>i u k. users s i = Some u \<and> walletPublicKey u = Some k \<and> k \<noteq> [] \<longrightarrow> walletIndex s k = Some i)"

definition store_inv :: "MemoryUserStore \<Rightarrow> bool" where
  "store_inv s = (ids_consistent s \<and> wallets_indexed s)"

section \<open>Sessions (server session)\<close>

record WalletSession =
  session_publicKey :: string
  session_userId :: "string option"
  createdAt :: int
  expiresAt :: "int option"
  session_metadata :: "metadata option"

text \<open>
  The \<open>SessionStore\<close> interface over the state \<open>'s\<close> of an implementation. \<open>get\<close> and
  \<open>cleanup\<close> receive the reading of the clock that the implementation takes.
\<close>

record 's SessionStore =
  store_set :: "string \<Rightarrow> WalletSession \<Rightarrow> 's \<Rightarrow> (error + unit) \<times> 's"
  store_get :: "string \<Rightarrow> int \<Rightarrow> 's \<Rightarrow> (error + WalletSession option) \<times> 's"
  store_delete :: "string \<Rightarrow> 's \<Rightarrow> (error + unit) \<times> 's"
  store_cleanup :: "int \<Rightarrow> 's \<Rightarrow> (error + unit) \<times> 's"

subsection \<open>MemorySessionStore\<close>

record MemorySessionStore =
  sessions :: "string \<rightharpoonup> WalletSession"

definition new_MemorySessionStore :: MemorySessionStore where
  "new_MemorySessionStore = \<lparr>sessions = Map.empty\<rparr>"

text \<open>\<open>session.expiresAt && session.expiresAt < now\<close>\<close>

definition expired :: "WalletSession \<Rightarrow> int \<Rightarrow> bool" where
  "expired session now = (truthy_number (expiresAt session) \<and> the (expiresAt session) < now)"

definition mem_set :: "MemorySessionStore \<Rightarrow> string \<Rightarrow> WalletSession \<Rightarrow> MemorySessionStore" where
  "mem_set s sessionId data = s\<lparr>sessions := (sessions s)(sessionId \<mapsto> data)\<rparr>"

definition mem_get ::
  "MemorySessionStore \<Rightarrow> string \<Rightarrow> int \<Rightarrow> WalletSession option \<times> MemorySessionStore" where
  "mem_get s sessionId now =
     (case sessions s sessionId of
        None \<Rightarrow> (None, s)
      | Some session \<Rightarrow>
          if expired session now
          then (None, s\<lparr>sessions := (sessions s)(sessionId := None)\<rparr>)
          else (Some session, s))"

definition mem_delete :: "MemorySessionStore \<Rightarrow> string \<Rightarrow> MemorySessionStore" where
  "mem_delete s sessionId = s\<lparr>sessions := (sessions s)(sessionId := None)\<rparr>"

text \<open>The loop of \<open>cleanup\<close> visits every entry once and deletes the expired ones.\<close>

definition mem_cleanup :: "MemorySessionStore \<Rightarrow> int \<Rightarrow> MemorySessionStore" where
  "mem_cleanup s now =
     s\<lparr>sessions := (\<lambda>sessionId.
          case sessions s sessionId of
            None \<Rightarrow> None
          | Some session \<Rightarrow> if expired session now then None else Some session)\<rparr>"

definition memorySessionStore :: "MemorySessionStore SessionStore" where
  "memorySessionStore =
     \<lparr>store_set = (\<lambda>sessionId data s. (Inr (), mem_set s sessionId data)),
      store_get = (\<lambda>sessionId now s. apfst Inr (mem_get s sessionId now)),
      store_delete = (\<lambda>sessionId s. (Inr (), mem_delete s sessionId)),
      store_cleanup = (\<lambda>now s. (Inr (), mem_cleanup s now))\<rparr>"

subsection \<open>SessionManager\<close>

text \<open>
  The manager holds its store and \<open>defaultTTL\<close> (24 hours unless given). The hourly
  \<open>setInterval\<close> sweep runs \<open>cleanup\<close> between calls and is not part of any method.
\<close>

record 's SessionManager =
  store :: "'s SessionStore"
  defaultTTL :: int

definition new_SessionManager :: "'s SessionStore \<Rightarrow> int option \<Rightarrow> 's SessionManager" where
  "new_SessionManager st ttl_arg =
     \<lparr>store = st, defaultTTL = (case ttl_arg of None \<Rightarrow> 86400000 | Some d \<Rightarrow> d)\<rparr>"


text \<open>\<open>x || d\<close> on an optional number.\<close>

definition number_or :: "int option \<Rightarrow> int \<Rightarrow> int" where
  "number_or x d = (if truthy_number x then the x else d)"


definition getSession ::
  "'s SessionManager \<Rightarrow> string \<Rightarrow> int \<Rightarrow> 's \<Rightarrow> (error + WalletSession option) \<times> 's" where
  "getSession mgr sessionId now s = store_get (store mgr) sessionId now s"

definition deleteSession :: "'s SessionManager \<Rightarrow> string \<Rightarrow> 's \<Rightarrow> (error + unit) \<times> 's" where
  "deleteSession mgr sessionId s = store_delete (store mgr) sessionId s"

text \<open>\<open>refreshSession(sessionId, ttl?)\<close>: the store reads the clock at \<open>t1\<close>, the method at \<open>t2\<close>.\<close>

definition refreshSession ::
  "'s SessionManager \<Rightarrow> string \<Rightarrow> int option \<Rightarrow> int \<Rightarrow> int \<Rightarrow> 's \<Rightarrow> (error + bool) \<times> 's" where
  "refreshSession mgr sessionId ttl_arg t1 t2 s =
     (case store_get (store mgr) sessionId t1 s of
        (Inl e, s1) \<Rightarrow> (Inl e, s1)
      | (Inr None, s1) \<Rightarrow> (Inr False, s1)
      | (Inr (Some session), s1) \<Rightarrow>
          (case store_set (store mgr) sessionId
                  (session\<lparr>expiresAt := Some (t2 + number_or ttl_arg (defaultTTL mgr))\<rparr>) s1 of
             (Inl e, s2) \<Rightarrow> (Inl e, s2)
           | (Inr _, s2) \<Rightarrow> (Inr True, s2)))"

section \<open>Request authenticator (server middleware)\<close>

text \<open>A header value is a string, an array of strings, or missing.\<close>

datatype header_value = HeaderUndefined | HeaderString string | HeaderArray "string list"

record Request =
  headers :: "string \<Rightarrow> header_value"
  req_walletPublicKey :: "string option"

text \<open>
  The options of a middleware. The two handlers are opaque callbacks: only whether they
  were given matters here, and calling one is an effect.
\<close>

record MiddlewareOptions =
  headerName :: "string option"
  opt_checkTimestamp :: "bool option"
  opt_maxAgeMs :: "int option"
  onUnauthorized :: bool
  onError :: bool

text \<open>
  What a handler does besides updating the request: call \<open>next()\<close>, answer with
  \<open>res.status(code).json({error})\<close>, call one of the injected handlers, or log to the console.
  \<open>next\<close> and the handlers are taken not to throw.
\<close>

datatype effect =
    CallNext
  | RespondJson int string
  | CallOnUnauthorized
  | CallOnError
  | ConsoleError

text \<open>\<open>toLowerCase()\<close> on the ASCII letters.\<close>

definition toLowerCase :: "string \<Rightarrow> string" where
  "toLowerCase s =
     map (\<lambda>c. if 65 \<le> (of_char c :: nat) \<and> (of_char c :: nat) \<le> 90
               then char_of ((of_char c :: nat) + 32) else c) s"

text \<open>\<open>s.split(d)\<close> for a one-character separator: the pieces between separators, never empty as a list.\<close>

fun split_on :: "char \<Rightarrow> string \<Rightarrow> string list" where
  "split_on d [] = [[]]"
| "split_on d (c # cs) =
     (if c = d then [] # split_on d cs
      else (case split_on d cs of
              [] \<Rightarrow> [[c]]
            | p # ps \<Rightarrow> (c # p) # ps))"

text \<open>An element of an array destructuring pattern: \<open>undefined\<close> past the end.\<close>

fun element :: "'a list \<Rightarrow> nat \<Rightarrow> 'a option" where
  "element [] n = None"
| "element (x # xs) 0 = Some x"
| "element (x # xs) (Suc n) = element xs n"

definition default_to :: "'a option \<Rightarrow> 'a \<Rightarrow> 'a" where
  "default_to x d = (case x of None \<Rightarrow> d | Some v \<Rightarrow> v)"

definition unauthorized :: "MiddlewareOptions \<Rightarrow> string \<Rightarrow> effect list" where
  "unauthorized options msg =
     (if onUnauthorized options then [CallOnUnauthorized] else [RespondJson 401 msg])"

text \<open>The handler that \<open>createWalletAuthMiddleware(options)\<close> returns, run on a request.\<close>

definition walletAuthMiddleware ::
  "externals \<Rightarrow> MiddlewareOptions \<Rightarrow> Request \<Rightarrow> int \<Rightarrow> Request \<times> effect list" where
  "walletAuthMiddleware ext options req now =
     (case headers req (toLowerCase (default_to (headerName options) ''Authorization'')) of
        HeaderUndefined \<Rightarrow> (req, unauthorized options ''Unauthorized: No wallet signature provided'')
      | HeaderArray vs \<Rightarrow> (req, unauthorized options ''Unauthorized: No wallet signature provided'')
      | HeaderString authHeader \<Rightarrow>
          if authHeader = [] then
            (req, unauthorized options ''Unauthorized: No wallet signature provided'')
          else if \<not> prefix ''Wallet '' authHeader then
            (req, unauthorized options ''Unauthorized: Invalid authorization format'')
          else
            (let parts = split_on CHR '':'' (drop 7 authHeader);
                 pk = element parts 0;
                 signature = element parts 1;
                 encodedMessage = element parts 2
             in if \<not> truthy_string pk \<or> \<not> truthy_string signature \<or> \<not> truthy_string encodedMessage
                then (req, unauthorized options ''Unauthorized: Invalid authorization format'')
                else
                  (case decodeURIComponent ext (the encodedMessage) of
                     None \<Rightarrow>
                       (req, if onError options then [CallOnError]
                             else [ConsoleError, RespondJson 500 ''Internal server error''])
                   | Some message \<Rightarrow>
                       (let result = verifyWalletSignature ext (the pk) (the signature) message
                                       (default_to (opt_checkTimestamp options) True)
                                       (default_to (opt_maxAgeMs options) 300000) now
                        in if \<not> valid result
                           then (req, unauthorized options (''Unauthorized: '' @ the (error result)))
                           else (req\<lparr>req_walletPublicKey := publicKey result\<rparr>, [CallNext])))))"

text \<open>The handler that \<open>createOptionalWalletAuthMiddleware(options)\<close> returns, run on a request.\<close>

definition optionalWalletAuthMiddleware ::
  "externals \<Rightarrow> MiddlewareOptions \<Rightarrow> Request \<Rightarrow> int \<Rightarrow> Request \<times> effect list" where
  "optionalWalletAuthMiddleware ext options req now =
     (case headers req (toLowerCase (default_to (headerName options) ''Authorization'')) of
        HeaderUndefined \<Rightarrow> (req, [CallNext])
      | HeaderArray vs \<Rightarrow> (req, [CallNext])
      | HeaderString authHeader \<Rightarrow>
          if authHeader = [] \<or> \<not> prefix ''Wallet '' authHeader then (req, [CallNext])
          else
            (let parts = split_on CHR '':'' (drop 7 authHeader);
                 pk = element parts 0;
                 signature = element parts 1;
                 encodedMessage = element parts 2
             in if \<not> truthy_string pk \<or> \<not> truthy_string signature \<or> \<not> truthy_string encodedMessage
                then (req, [CallNext])
                else
                  (case decodeURIComponent ext (the encodedMessage) of
                     None \<Rightarrow> (req, [ConsoleError, CallNext])
                   | Some message \<Rightarrow>
                       (let result = verifyWalletSignature ext (the pk) (the signature) message
                                       (default_to (opt_checkTimestamp options) True)
                                       (default_to (opt_maxAgeMs options) 300000) now
                        in ((if valid result then req\<lparr>req_walletPublicKey := publicKey result\<rparr>
                             else req), [CallNext])))))"

text \<open>
  The credential that a request presents, in the words of the specification: the header
  is a single string \<open>Wallet <publicKey>:<signature>:<url-encoded message>\<close> with three
  non-empty fields, and the message is the percent-decoded third field.
\<close>

definition presented_credential ::
  "externals \<Rightarrow> MiddlewareOptions \<Rightarrow> Request \<Rightarrow> (string \<times> string \<times> string) option" where
  "presented_credential ext options req =
     (case headers req (toLowerCase (default_to (headerName options) ''Authorization'')) of
        HeaderString h \<Rightarrow>
          (if prefix ''Wallet '' h then
             (case split_on CHR '':'' (drop 7 h) of
                pk # sg # enc # rest \<Rightarrow>
                  (if pk \<noteq> [] \<and> sg \<noteq> [] \<and> enc \<noteq> []
                   then map_option (\<lambda>m. (pk, sg, m)) (decodeURIComponent ext enc)
                   else None)
              | _ \<Rightarrow> None)
           else None)
      | _ \<Rightarrow> None)"

section \<open>Fixtures for concrete evaluations\<close>

text \<open>Primitives that accept every key and every signature, and decode nothing.\<close>

definition accepting_externals :: externals where
  "accepting_externals =
     \<lparr>PublicKey_toBytes = (\<lambda>_. Some []), bs58_decode = (\<lambda>_. Some []),
      TextEncoder_encode = (\<lambda>_. []), nacl_verify = (\<lambda>_ _ _. Some True),
      decodeURIComponent = Some\<rparr>"

text \<open>
  A user store whose \<open>create\<close> and \<open>update\<close> always fail with a uniqueness violation and
  whose state counts the calls of \<open>findByPublicKey\<close>.
\<close>

definition conflicting_store :: "nat UserStore" where
  "conflicting_store =
     \<lparr>findByPublicKey = (\<lambda>pk n. (Inr None, Suc n)),
      findByUserId = (\<lambda>userId n. (Inr None, n)),
      findByEmail = (\<lambda>em n. (Inr None, n)),
      create = (\<lambda>data n. (Inl (Error ''duplicate key value violates unique constraint''), n)),
      update = (\<lambda>userId data n. (Inl (Error ''duplicate key value violates unique constraint''), n))\<rparr>"

text \<open>Middleware options with every default, and a request that carries a wallet header.\<close>

definition default_options :: MiddlewareOptions where
  "default_options =
     \<lparr>headerName = None, opt_checkTimestamp = None, opt_maxAgeMs = None,
      onUnauthorized = False, onError = False\<rparr>"

definition wallet_request :: Request where
  "wallet_request =
     \<lparr>headers = (\<lambda>name. if name = ''authorization''
                          then HeaderString ''Wallet pk:sg:Timestamp: 900''
                          else HeaderUndefined),
      req_walletPublicKey = None\<rparr>"

section \<open>Decimal notation and the timestamp pattern\<close>

lemma of_char_digit_char: "d < 10 \<Longrightarrow> (of_char (digit_char d) :: nat) = 48 + d"
  by (simp add: digit_char_def)

lemma isDigit_digit_char: "d < 10 \<Longrightarrow> isDigit (digit_char d)"
  by (simp add: isDigit_def of_char_digit_char)

lemma digits_of_nonempty: "digits_of n \<noteq> []"
  by (subst digits_of.simps) simp

lemma digits_of_all_digits: "\<forall>c \<in> set (digits_of n). isDigit c"
proof (induction n rule: digits_of.induct)
  case (1 n)
  show ?case
  proof (cases "n < 10")
    case True
    then show ?thesis by (subst digits_of.simps) (simp add: isDigit_digit_char)
  next
    case False
    with 1 show ?thesis by (subst digits_of.simps) (simp add: isDigit_digit_char)
  qed
qed

lemma parseInt10_snoc: "parseInt10 (s @ [c]) = 10 * parseInt10 s + (int (of_char c) - 48)"
  by (simp add: parseInt10_def)

lemma parseInt10_digits_of: "parseInt10 (digits_of n) = int n"
proof (induction n rule: digits_of.induct)
  case (1 n)
  show ?case
  proof (cases "n < 10")
    case True
    then show ?thesis
      by (subst digits_of.simps) (simp add: parseInt10_def of_char_digit_char)
  next
    case False
    with 1 have "parseInt10 (digits_of (n div 10)) = int (n div 10)" by simp
    moreover have "10 * int (n div 10) + int (n mod 10) = int n"
      by (metis div_mult_mod_eq mult.commute of_nat_add of_nat_mult of_nat_numeral)
    ultimately show ?thesis using False
      by (subst digits_of.simps) (simp add: parseInt10_snoc of_char_digit_char)
  qed
qed

lemma takeWhile_digits_of: "takeWhile isDigit (digits_of n) = digits_of n"
  using digits_of_all_digits by (simp add: takeWhile_eq_all_conv)

lemma timestampMatch_literal: "timestampMatch (''Timestamp: '' @ digits_of n) = Some (digits_of n)"
  by (simp add: matchAt_def takeWhile_digits_of digits_of_nonempty)

lemma timestampMatch_skip: "c \<noteq> CHR ''T'' \<Longrightarrow> timestampMatch (c # s) = timestampMatch s"
  by (simp add: matchAt_def)

lemma matchAt_blocked:
  assumes "c \<notin> set ''Timestamp: ''" "\<not> isDigit c" "matchAt (zs @ c # ys)"
  shows "matchAt zs"
proof -
  from assms(3) have p: "prefix ''Timestamp: '' (zs @ c # ys)"
    and d: "takeWhile isDigit (drop 11 (zs @ c # ys)) \<noteq> []"
    by (simp_all add: matchAt_def)
  from p have "prefix ''Timestamp: '' zs \<or> (\<exists>us. ''Timestamp: '' = zs @ us \<and> prefix us (c # ys))"
    by (simp only: prefix_append)
  then show ?thesis
  proof
    assume pz: "prefix ''Timestamp: '' zs"
    then have len: "11 \<le> length zs" by (auto dest: prefix_length_le)
    show ?thesis
    proof (cases "drop 11 zs")
      case Nil
      with len have "length zs = 11" by simp
      with d assms(2) show ?thesis by simp
    next
      case (Cons a as)
      with d len have "isDigit a" by (auto split: if_splits)
      with Cons pz show ?thesis by (simp add: matchAt_def)
    qed
  next
    assume "\<exists>us. ''Timestamp: '' = zs @ us \<and> prefix us (c # ys)"
    then obtain us where e: "''Timestamp: '' = zs @ us" and pu: "prefix us (c # ys)" by blast
    have l: "length ''Timestamp: '' = length zs + length us" by (subst e) simp
    have s: "set ''Timestamp: '' = set zs \<union> set us" by (subst e) (rule set_append)
    show ?thesis
    proof (cases us)
      case Nil
      with l have "length zs = 11" by simp
      with d assms(2) show ?thesis by simp
    next
      case (Cons u us')
      with pu have "u = c" by simp
      with Cons have "c \<in> set us" by simp
      with s assms(1) show ?thesis by blast
    qed
  qed
qed

lemma matchAt_snoc_nondigit:
  assumes "\<not> isDigit c" "matchAt (zs @ [c])"
  shows "matchAt zs"
proof -
  from assms(2) have p: "prefix ''Timestamp: '' (zs @ [c])"
    and d: "takeWhile isDigit (drop 11 (zs @ [c])) \<noteq> []"
    by (simp_all add: matchAt_def)
  have len: "11 < length (zs @ [c])"
  proof (rule ccontr)
    assume "\<not> 11 < length (zs @ [c])"
    then have "drop 11 (zs @ [c]) = []" by simp
    with d show False by simp
  qed
  then have len': "11 \<le> length zs" by simp
  from p have "''Timestamp: '' = zs @ [c] \<or> prefix ''Timestamp: '' zs"
    by (simp only: prefix_snoc)
  then have pz: "prefix ''Timestamp: '' zs"
  proof
    assume e: "''Timestamp: '' = zs @ [c]"
    have "length ''Timestamp: '' = length zs + 1" by (subst e) simp
    with len' show ?thesis by simp
  qed
  show ?thesis
  proof (cases "drop 11 zs")
    case Nil
    with len' have "length zs = 11" by simp
    with d assms(1) show ?thesis by simp
  next
    case (Cons a as)
    with d len' have "isDigit a" by (auto split: if_splits)
    with Cons pz show ?thesis by (simp add: matchAt_def)
  qed
qed

lemma timestampMatch_snoc_nondigit:
  "\<not> isDigit c \<Longrightarrow> timestampMatch xs = None \<Longrightarrow> timestampMatch (xs @ [c]) = None"
proof (induction xs)
  case Nil
  then show ?case by (simp add: matchAt_def)
next
  case (Cons x xs)
  from Cons.prems(2) have nm: "\<not> matchAt (x # xs)" and r: "timestampMatch xs = None"
    by (simp_all split: if_splits)
  from nm Cons.prems(1) have "\<not> matchAt ((x # xs) @ [c])"
    using matchAt_snoc_nondigit by blast
  with Cons.IH Cons.prems r show ?case by simp
qed

lemma timestampMatch_blocked:
  "c \<notin> set ''Timestamp: '' \<Longrightarrow> \<not> isDigit c \<Longrightarrow> timestampMatch xs = None \<Longrightarrow>
   timestampMatch (xs @ c # ys) = timestampMatch ys"
proof (induction xs)
  case Nil
  then show ?case by (auto simp add: matchAt_def)
next
  case (Cons x xs)
  from Cons.prems(3) have nm: "\<not> matchAt (x # xs)" and r: "timestampMatch xs = None"
    by (simp_all split: if_splits)
  from nm Cons.prems(1,2) have "\<not> matchAt ((x # xs) @ c # ys)"
    using matchAt_blocked by blast
  with Cons.IH Cons.prems r show ?case by simp
qed


lemma timestampMatch_challenge:
  assumes a: "timestampMatch appName = None" and n: "timestampMatch nc = None"
  shows "timestampMatch (appName @ '' wants you to sign in with your Solana account.''
           @ [CHR 0x0A, CHR 0x0A] @ ''Nonce: '' @ nc @ [CHR 0x0A] @ ''Timestamp: '' @ digits_of k)
         = Some (digits_of k)"
proof -
  let ?tail = "''Timestamp: '' @ digits_of k"
  let ?mid = "''ants you to sign in with your Solana account.'' @ [CHR 0x0A, CHR 0x0A] @ ''Nonce: ''"
  have sp: "\<not> isDigit CHR '' ''" and nl: "\<not> isDigit (CHR 0x0A)" and w: "\<not> isDigit CHR ''w''"
    by (simp_all add: isDigit_def)
  from a sp have 1: "timestampMatch (appName @ [CHR '' '']) = None"
    by (rule timestampMatch_snoc_nondigit[rotated])
  have 2: "timestampMatch ((appName @ [CHR '' '']) @ CHR ''w'' # (?mid @ nc @ CHR 0x0A # ?tail))
           = timestampMatch (?mid @ nc @ CHR 0x0A # ?tail)"
    using w 1 by (intro timestampMatch_blocked) simp_all
  have 3: "timestampMatch (?mid @ nc @ CHR 0x0A # ?tail) = timestampMatch (nc @ CHR 0x0A # ?tail)"
    by (simp add: timestampMatch_skip del: timestampMatch.simps)
  have 4: "timestampMatch (nc @ CHR 0x0A # ?tail) = timestampMatch ?tail"
    using nl n by (intro timestampMatch_blocked) simp_all
  have "appName @ '' wants you to sign in with your Solana account.''
           @ [CHR 0x0A, CHR 0x0A] @ ''Nonce: '' @ nc @ [CHR 0x0A] @ ''Timestamp: '' @ digits_of k
        = (appName @ [CHR '' '']) @ CHR ''w'' # (?mid @ nc @ CHR 0x0A # ?tail)"
    by simp
  with 2 3 4 timestampMatch_literal[of k] show ?thesis by (simp only:)
qed

lemma timestampMatch_digits: "timestampMatch s = Some m \<Longrightarrow> \<forall>c \<in> set m. isDigit c"
proof (induction s)
  case Nil
  then show ?case by simp
next
  case (Cons c cs)
  show ?case
  proof (cases "matchAt (c # cs)")
    case True
    with Cons.prems have "m = takeWhile isDigit (drop 11 (c # cs))" by simp
    then show ?thesis by (auto dest: set_takeWhileD)
  next
    case False
    with Cons show ?thesis by simp
  qed
qed

lemma parseInt10_nonneg: "\<forall>c \<in> set s. isDigit c \<Longrightarrow> 0 \<le> parseInt10 s"
proof (induction s rule: rev_induct)
  case Nil
  then show ?case by (simp add: parseInt10_def)
next
  case (snoc c s)
  then have "0 \<le> parseInt10 s" and "48 \<le> (of_char c :: nat)" by (simp_all add: isDigit_def)
  then show ?case by (simp add: parseInt10_snoc)
qed

lemma timestampMatch_nonneg: "timestampMatch s = Some m \<Longrightarrow> 0 \<le> parseInt10 m"
  using timestampMatch_digits parseInt10_nonneg by blast

section \<open>Rounding to a double\<close>

lemma bit_length_bounds: "0 < n \<Longrightarrow> 2 ^ (bit_length n - 1) \<le> n \<and> n < 2 ^ bit_length n"
proof (induction n rule: bit_length.induct)
  case (1 n)
  have bl: "bit_length n = Suc (bit_length (n div 2))"
    using 1(2) by (simp add: bit_length.simps[of n])
  show ?case
  proof (cases "n div 2 \<le> 0")
    case True
    with 1(2) have n1: "n = 1" by linarith
    from True have "bit_length (n div 2) = 0" by (simp add: bit_length.simps[of "n div 2"])
    with bl n1 show ?thesis by simp
  next
    case False
    with 1 have ih: "2 ^ (bit_length (n div 2) - 1) \<le> n div 2 \<and> n div 2 < 2 ^ bit_length (n div 2)"
      by simp
    from False have pos: "0 < bit_length (n div 2)" by (simp add: bit_length.simps[of "n div 2"])
    then have "(2::int) ^ bit_length (n div 2) = 2 * 2 ^ (bit_length (n div 2) - 1)"
      by (cases "bit_length (n div 2)") simp_all
    with ih have "2 ^ bit_length (n div 2) \<le> n" by linarith
    moreover from ih have "n < 2 * 2 ^ bit_length (n div 2)" by linarith
    ultimately show ?thesis by (simp add: bl)
  qed
qed

lemma bit_length_small: "0 \<le> n \<Longrightarrow> n \<le> 2 ^ 53 \<Longrightarrow> bit_length n \<le> 54"
proof (rule ccontr)
  assume a: "0 \<le> n" "n \<le> 2 ^ 53" and c: "\<not> bit_length n \<le> 54"
  then have pos: "0 < n" by (cases "n = 0") (simp_all add: bit_length.simps[of 0])
  from c have "54 \<le> bit_length n - 1" by simp
  then have "(2::int) ^ 54 \<le> 2 ^ (bit_length n - 1)" by (rule power_increasing) simp
  with bit_length_bounds[OF pos] a(2) show False by simp
qed

lemma toDouble_exact: "\<bar>n\<bar> \<le> 2 ^ 53 \<Longrightarrow> toDouble n = Finite n"
proof -
  assume a: "\<bar>n\<bar> \<le> 2 ^ 53"
  then have r: "round_magnitude \<bar>n\<bar> = \<bar>n\<bar>" by (simp add: round_magnitude_def)
  from a have "bit_length \<bar>n\<bar> \<le> 54" by (intro bit_length_small) simp_all
  with r show ?thesis by (simp add: toDouble_def Let_def)
qed

lemma round_magnitude_large:
  assumes "2 ^ 53 < a"
  shows "2 ^ 53 \<le> round_magnitude a"
proof -
  have "(0::int) < 2 ^ 53" by simp
  with assms have pos: "0 < a" by linarith
  note b = bit_length_bounds[OF pos]
  have bl: "54 \<le> bit_length a"
  proof (rule ccontr)
    assume "\<not> 54 \<le> bit_length a"
    then have "bit_length a \<le> 53" by simp
    then have "(2::int) ^ bit_length a \<le> 2 ^ 53" by (rule power_increasing) simp
    with b assms show False by linarith
  qed
  define q :: int where "q = 2 ^ (bit_length a - 53)"
  define k where "k = a div q"
  have e: "bit_length a - 1 = 52 + (bit_length a - 53)" using bl by simp
  have low: "2 ^ 52 * q \<le> a" using b unfolding q_def e power_add by simp
  have qpos: "0 < q" by (simp add: q_def)
  have "(2 ^ 52 * q) div q \<le> a div q" using low qpos by (intro zdiv_mono1) simp_all
  with qpos have k52: "2 ^ 52 \<le> k" unfolding k_def by simp
  with qpos have "2 ^ 52 * q \<le> k * q" by simp
  moreover have "(2::int) ^ 53 \<le> 2 ^ 52 * q"
  proof -
    have "(2::int) ^ 1 \<le> q" unfolding q_def by (rule power_increasing) (use bl in simp_all)
    then show ?thesis by simp
  qed
  ultimately have kq: "2 ^ 53 \<le> k * q" by linarith
  with qpos have kq': "2 ^ 53 \<le> (k + 1) * q" by (simp add: distrib_right)
  from assms have "round_magnitude a = k * q \<or> round_magnitude a = (k + 1) * q"
    by (auto simp: round_magnitude_def Let_def q_def k_def)
  with kq kq' show ?thesis by auto
qed

lemma toDouble_negative:
  assumes "n < 0"
  shows "toDouble n = NegInfinity \<or> (\<exists>d. toDouble n = Finite d \<and> d < 0)"
proof -
  have "0 < round_magnitude \<bar>n\<bar>"
  proof (cases "\<bar>n\<bar> \<le> 2 ^ 53")
    case True
    with assms show ?thesis by (simp add: round_magnitude_def)
  next
    case False
    then have "2 ^ 53 \<le> round_magnitude \<bar>n\<bar>" by (intro round_magnitude_large) simp
    moreover have "(0::int) < 2 ^ 53" by simp
    ultimately show ?thesis by linarith
  qed
  with assms show ?thesis by (simp add: toDouble_def Let_def)
qed

lemma toDouble_above:
  assumes "0 \<le> b" "b < 2 ^ 53" "b < v"
  shows "toDouble v = PosInfinity \<or> (\<exists>d. toDouble v = Finite d \<and> b < d)"
proof (cases "v \<le> 2 ^ 53")
  case True
  with assms have "\<bar>v\<bar> \<le> 2 ^ 53" by simp
  with assms toDouble_exact[of v] show ?thesis by simp
next
  case False
  then have "2 ^ 53 < \<bar>v\<bar>" by simp
  then have "2 ^ 53 \<le> round_magnitude \<bar>v\<bar>" by (rule round_magnitude_large)
  with assms False show ?thesis by (auto simp: toDouble_def Let_def)
qed

lemma future_age_below_limit:
  assumes "0 \<le> now" "now < 2 ^ 53" "now < v" "0 \<le> maxAgeMs"
  shows "number_less (number_sub now (toDouble v)) maxAgeMs"
proof -
  from toDouble_above[OF assms(1,2,3)] show ?thesis
  proof
    assume "toDouble v = PosInfinity"
    then show ?thesis by simp
  next
    assume "\<exists>d. toDouble v = Finite d \<and> now < d"
    then obtain d where d: "toDouble v = Finite d" "now < d" by blast
    then have "now - d < 0" by simp
    from toDouble_negative[OF this] assms(4) d(1) show ?thesis by auto
  qed
qed

section \<open>Challenge generator and signature verifier\<close>

text \<open>
  Claim C8, as amended. A challenge generated at a non-negative clock reading \<open>t\<close> is read
  back as exactly \<open>t\<close> by the verifier's extractor (the first match of
  \<open>Timestamp: (\d+)\<close>, parsed in base 10), provided that neither the application name nor
  the nonce that ends up in the message (the caller's, or the generated one) itself contains
  a match of the pattern. The matched digits always denote \<open>t\<close>, and for \<open>t\<close> up to \<open>2^53\<close>,
  which every clock reading is, the Number that \<open>parseInt\<close> returns for them is \<open>t\<close>.
\<close>

theorem challenge_timestamp_roundtrip:
  assumes "0 \<le> t"
    and "timestampMatch appName = None"
    and "timestampMatch (nonceStr nonce rnd) = None"
  shows "map_option parseInt10 (timestampMatch (generateSignatureMessage appName nonce rnd t)) = Some t
       \<and> (t \<le> 2 ^ 53 \<longrightarrow>
            map_option parseInt (timestampMatch (generateSignatureMessage appName nonce rnd t))
              = Some (Finite t))"
proof -
  from assms(1) have "number_toString t = digits_of (nat t)"
    by (simp add: number_toString_def)
  then have m: "timestampMatch (generateSignatureMessage appName nonce rnd t) = Some (digits_of (nat t))"
    using timestampMatch_challenge[OF assms(2,3), of "nat t"]
    by (simp only: generateSignatureMessage_def)
  from assms(1) have p: "parseInt10 (digits_of (nat t)) = t" by (simp add: parseInt10_digits_of)
  have "t \<le> 2 ^ 53 \<Longrightarrow> parseInt (digits_of (nat t)) = Finite t"
    using assms(1) p by (simp add: parseInt_def toDouble_exact)
  with m p show ?thesis by simp
qed

theorem challenge_timestamp_roundtrip_witness:
  "(0::int) \<le> 1700 \<and> timestampMatch ''Acme'' = None
   \<and> timestampMatch (nonceStr (Some ''n1'') ''abc'') = None
   \<and> (1700::int) \<le> 2 ^ 53
   \<and> map_option parseInt10 (timestampMatch (generateSignatureMessage ''Acme'' (Some ''n1'') ''abc'' 1700))
       = Some 1700
   \<and> map_option parseInt (timestampMatch (generateSignatureMessage ''Acme'' (Some ''n1'') ''abc'' 1700))
       = Some (Finite 1700)"
proof -
  have h1: "(0::int) \<le> 1700" by simp
  have h2: "timestampMatch ''Acme'' = None" by code_simp
  have h3: "timestampMatch (nonceStr (Some ''n1'') ''abc'') = None" by code_simp
  have h4: "(1700::int) \<le> 2 ^ 53" by simp
  from challenge_timestamp_roundtrip[OF h1 h2 h3] h1 h2 h3 h4 show ?thesis by (simp only: simp_thms)
qed

text \<open>
  Claim C8 as stated, for every application name, fails: the extractor takes the leftmost
  match, so an application name that contains \<open>Timestamp: 5\<close> makes it read 5 from a
  challenge generated at time 1700.
\<close>

theorem challenge_timestamp_counterexample:
  "map_option parseInt10
     (timestampMatch (generateSignatureMessage ''Timestamp: 5'' (Some ''n1'') ''abc'' 1700))
   = Some 5
   \<and> map_option parseInt
     (timestampMatch (generateSignatureMessage ''Timestamp: 5'' (Some ''n1'') ''abc'' 1700))
   = Some (Finite 5)"
  by code_simp

text \<open>
  Claim C9, as amended. For a message whose first \<open>Timestamp:\<close> match denotes an integer
  below \<open>2^53\<close>, and clock readings from 0 to below \<open>2^53\<close> (so that \<open>parseInt\<close> and the
  subtraction are exact): if the timestamp is exactly \<open>maxAgeMs + 1\<close> milliseconds old, the
  timestamp check fails and verification returns \<open>valid = false\<close>; if it is exactly
  \<open>maxAgeMs - 1\<close> milliseconds old, the check passes and verification does not report the
  timestamp error. This holds for every \<open>maxAgeMs\<close>.
\<close>

theorem timestamp_age_boundary:
  assumes "timestampMatch message = Some m"
    and "parseInt10 m < 2 ^ 53"
    and "0 \<le> now1" and "now1 < 2 ^ 53"
    and "0 \<le> now2" and "now2 < 2 ^ 53"
    and "now1 - parseInt10 m = maxAgeMs + 1"
    and "now2 - parseInt10 m = maxAgeMs - 1"
  shows "\<not> isMessageTimestampValid message maxAgeMs now1
       \<and> valid (verifyWalletSignature ext pk sg message True maxAgeMs now1) = False
       \<and> isMessageTimestampValid message maxAgeMs now2
       \<and> error (verifyWalletSignature ext pk sg message True maxAgeMs now2)
           \<noteq> Some ''Message timestamp expired or invalid''"
proof -
  from assms(1) have nn: "0 \<le> parseInt10 m" by (rule timestampMatch_nonneg)
  with assms(2) have p: "parseInt m = Finite (parseInt10 m)"
    by (simp add: parseInt_def toDouble_exact)
  from nn assms(2,3,4) have "\<bar>now1 - parseInt10 m\<bar> \<le> 2 ^ 53" by simp
  then have a1: "number_sub now1 (parseInt m) = Finite (now1 - parseInt10 m)"
    by (simp add: p toDouble_exact)
  from nn assms(2,5,6) have "\<bar>now2 - parseInt10 m\<bar> \<le> 2 ^ 53" by simp
  then have a2: "number_sub now2 (parseInt m) = Finite (now2 - parseInt10 m)"
    by (simp add: p toDouble_exact)
  from assms(1,7) a1 have r: "\<not> isMessageTimestampValid message maxAgeMs now1"
    by (simp add: isMessageTimestampValid_def)
  from assms(1,8) a2 have v: "isMessageTimestampValid message maxAgeMs now2"
    by (simp add: isMessageTimestampValid_def)
  from r v show ?thesis by (simp add: verifyWalletSignature_def)
qed

theorem timestamp_age_boundary_witness:
  "timestampMatch ''Timestamp: 1000'' = Some ''1000''
   \<and> parseInt10 ''1000'' < 2 ^ 53
   \<and> (0::int) \<le> 1301 \<and> (1301::int) < 2 ^ 53 \<and> (0::int) \<le> 1299 \<and> (1299::int) < 2 ^ 53
   \<and> 1301 - parseInt10 ''1000'' = (300::int) + 1
   \<and> 1299 - parseInt10 ''1000'' = (300::int) - 1
   \<and> \<not> isMessageTimestampValid ''Timestamp: 1000'' 300 1301
   \<and> valid (verifyWalletSignature accepting_externals ''pk'' ''sg'' ''Timestamp: 1000'' True 300 1301) = False
   \<and> isMessageTimestampValid ''Timestamp: 1000'' 300 1299
   \<and> error (verifyWalletSignature accepting_externals ''pk'' ''sg'' ''Timestamp: 1000'' True 300 1299)
       \<noteq> Some ''Message timestamp expired or invalid''"
proof -
  have h1: "timestampMatch ''Timestamp: 1000'' = Some ''1000''" by code_simp
  have h2: "parseInt10 ''1000'' < 2 ^ 53" by (simp add: parseInt10_def)
  have h3: "(0::int) \<le> 1301" and h4: "(1301::int) < 2 ^ 53"
    and h5: "(0::int) \<le> 1299" and h6: "(1299::int) < 2 ^ 53" by simp_all
  have h7: "1301 - parseInt10 ''1000'' = (300::int) + 1" by code_simp
  have h8: "1299 - parseInt10 ''1000'' = (300::int) - 1" by code_simp
  from timestamp_age_boundary[OF h1 h2 h3 h4 h5 h6 h7 h8, of accepting_externals "''pk''" "''sg''"]
    h1 h2 h3 h4 h5 h6 h7 h8
  show ?thesis by (simp only: simp_thms)
qed

text \<open>
  Claim C9 as stated, for every \<open>maxAgeMs\<close> and every message, fails where the timestamp
  is not a double: \<open>9007199254740993\<close> is \<open>2^53 + 1\<close> and is parsed as \<open>2^53\<close>. At the
  clock reading 1700000000000 and \<open>maxAgeMs = -9005499254740992\<close> the timestamp is exactly
  \<open>maxAgeMs - 1\<close> milliseconds old, yet the computed age equals \<open>maxAgeMs\<close> and the check
  fails.
\<close>

theorem timestamp_age_boundary_counterexample:
  "timestampMatch ''Timestamp: 9007199254740993'' = Some ''9007199254740993''
   \<and> 1700000000000 - parseInt10 ''9007199254740993'' = (-9005499254740992::int) - 1
   \<and> parseInt ''9007199254740993'' = Finite 9007199254740992
   \<and> isMessageTimestampValid ''Timestamp: 9007199254740993'' (-9005499254740992) 1700000000000
       = False"
  by code_simp

text \<open>
  Claim C2, as amended. The check compares only the age \<open>now - timestamp\<close> with
  \<open>maxAgeMs\<close>. For a message whose embedded timestamp lies after the clock reading, by any
  amount, and \<open>maxAgeMs\<close> not negative, the check passes, and verification with
  \<open>checkTimestamp = true\<close> depends on the public key and the signature alone: a signature
  that verifies is accepted, with the public key and the parsed timestamp (the Number that
  \<open>parseInt\<close> returns for the digits) echoed back. The clock reading is one that
  \<open>Date.now()\<close> can give: not negative and below \<open>2^53\<close>.
\<close>

theorem future_timestamp_accepted:
  assumes "timestampMatch message = Some m"
    and "now < parseInt10 m"
    and "0 \<le> now" and "now < 2 ^ 53"
    and "0 \<le> maxAgeMs"
  shows "isMessageTimestampValid message maxAgeMs now
       \<and> verifyWalletSignature ext pk sg message True maxAgeMs now =
           (if \<not> isValidPublicKey ext pk then
              \<lparr>valid = False, publicKey = None, error = Some ''Invalid public key format'',
               timestamp = None\<rparr>
            else if verifySignature ext message sg pk then
              \<lparr>valid = True, publicKey = Some pk, error = None, timestamp = Some (parseInt m)\<rparr>
            else
              \<lparr>valid = False, publicKey = None, error = Some ''Invalid signature'', timestamp = None\<rparr>)"
proof -
  from future_age_below_limit[OF assms(3,4,2,5)] assms(1)
  have v: "isMessageTimestampValid message maxAgeMs now"
    by (simp add: isMessageTimestampValid_def parseInt_def)
  with assms(1) show ?thesis by (simp add: verifyWalletSignature_def)
qed

theorem future_timestamp_accepted_witness:
  "timestampMatch ''Timestamp: 9007199254740993'' = Some ''9007199254740993''
   \<and> (1700000000000::int) < parseInt10 ''9007199254740993''
   \<and> (0::int) \<le> 1700000000000 \<and> (1700000000000::int) < 2 ^ 53
   \<and> (0::int) \<le> 300000
   \<and> isMessageTimestampValid ''Timestamp: 9007199254740993'' 300000 1700000000000
   \<and> verifyWalletSignature accepting_externals ''pk'' ''sg'' ''Timestamp: 9007199254740993'' True
        300000 1700000000000 =
       (if \<not> isValidPublicKey accepting_externals ''pk'' then
          \<lparr>valid = False, publicKey = None, error = Some ''Invalid public key format'',
           timestamp = None\<rparr>
        else if verifySignature accepting_externals ''Timestamp: 9007199254740993'' ''sg'' ''pk'' then
          \<lparr>valid = True, publicKey = Some ''pk'', error = None,
           timestamp = Some (parseInt ''9007199254740993'')\<rparr>
        else
          \<lparr>valid = False, publicKey = None, error = Some ''Invalid signature'', timestamp = None\<rparr>)"
proof -
  have h1: "timestampMatch ''Timestamp: 9007199254740993'' = Some ''9007199254740993''"
    by code_simp
  have h2: "(1700000000000::int) < parseInt10 ''9007199254740993''" by code_simp
  have h3: "(0::int) \<le> 1700000000000" and h4: "(1700000000000::int) < 2 ^ 53" by simp_all
  have h5: "(0::int) \<le> 300000" by simp
  from future_timestamp_accepted[OF h1 h2 h3 h4 h5, of accepting_externals "''pk''" "''sg''"]
    h1 h2 h3 h4 h5
  show ?thesis by (simp only: simp_thms)
qed

text \<open>
  Claim C2 as stated fails: a message stamped about 263 years after the current clock
  reading, with a key and a signature that the primitives accept, is verified as valid
  with no error.
\<close>

theorem future_timestamp_counterexample:
  "valid (verifyWalletSignature accepting_externals ''pk'' ''sg'' ''Timestamp: 9999999999999'' True
            300000 1700000000000) = True
   \<and> error (verifyWalletSignature accepting_externals ''pk'' ''sg'' ''Timestamp: 9999999999999'' True
            300000 1700000000000) = None"
  by code_simp

section \<open>User linking over the in-memory store\<close>

lemma number_toString_nonempty: "number_toString n \<noteq> []"
  by (simp add: number_toString_def digits_of_nonempty)

lemma store_inv_new: "store_inv new_MemoryUserStore"
  by (simp add: store_inv_def ids_consistent_def wallets_indexed_def new_MemoryUserStore_def)

lemma find_None_no_holder:
  assumes "store_inv s" "mem_findByPublicKey s pk = None" "users s i = Some u"
    "walletPublicKey u = Some pk" "pk \<noteq> []"
  shows False
proof -
  from assms(1,3,4,5) have w: "walletIndex s pk = Some i" and "i \<noteq> []"
    by (auto simp: store_inv_def ids_consistent_def wallets_indexed_def)
  with assms(2,3) show False by (simp add: mem_findByPublicKey_def)
qed

lemma store_inv_create:
  assumes inv: "store_inv s" and nf: "mem_findByPublicKey s (link_publicKey options) = None"
  shows "store_inv (snd (mem_create s (link_create_data options now)))"
proof -
  let ?pk = "link_publicKey options"
  let ?s' = "snd (mem_create s (link_create_data options now))"
  let ?i0 = "number_toString (nextId s)"
  let ?u0 = "\<lparr>user_id = ?i0, walletPublicKey = Some ?pk, email = link_email options,
              walletConnectedAt = Some now, metadata = Some (own_entries (link_metadata options))\<rparr>"
  have us: "users ?s' = (users s)(?i0 \<mapsto> ?u0)"
    by (simp add: mem_create_def link_create_data_def Let_def)
  have wi: "walletIndex ?s' = (if ?pk \<noteq> [] then (walletIndex s)(?pk \<mapsto> ?i0) else walletIndex s)"
    by (simp add: mem_create_def link_create_data_def Let_def)
  have "ids_consistent ?s'"
    using inv by (auto simp: us store_inv_def ids_consistent_def number_toString_nonempty)
  moreover have "wallets_indexed ?s'"
    unfolding wallets_indexed_def
  proof (intro allI impI)
    fix i u k
    assume a: "users ?s' i = Some u \<and> walletPublicKey u = Some k \<and> k \<noteq> []"
    show "walletIndex ?s' k = Some i"
    proof (cases "i = ?i0")
      case True
      with a us show ?thesis by (auto simp: wi)
    next
      case False
      with a us have old: "users s i = Some u" by simp
      with a inv have w: "walletIndex s k = Some i"
        by (auto simp: store_inv_def wallets_indexed_def)
      have "k \<noteq> ?pk" using find_None_no_holder[OF inv nf old] a by blast
      with w show ?thesis by (simp add: wi)
    qed
  qed
  ultimately show ?thesis by (simp add: store_inv_def)
qed

lemma store_inv_update_link:
  assumes inv: "store_inv s" and nf: "mem_findByPublicKey s (link_publicKey options) = None"
    and u: "users s uid = Some user" and nw: "\<not> truthy_string (walletPublicKey user)"
  shows "store_inv (snd (mem_update s uid (link_update_data options now user)))"
proof -
  let ?pk = "link_publicKey options"
  let ?s' = "snd (mem_update s uid (link_update_data options now user))"
  let ?u' = "spread_user user (link_update_data options now user)"
  have us: "users ?s' = (users s)(uid \<mapsto> ?u')"
    using u by (simp add: mem_update_def link_update_data_def Let_def)
  have wi: "walletIndex ?s' = (if ?pk \<noteq> [] then (walletIndex s)(?pk \<mapsto> uid) else walletIndex s)"
    using u nw by (simp add: mem_update_def link_update_data_def Let_def)
  have id': "user_id ?u' = user_id user" and w': "walletPublicKey ?u' = Some ?pk"
    by (simp_all add: spread_user_def link_update_data_def)
  have "ids_consistent ?s'"
    using inv u by (auto simp: us id' store_inv_def ids_consistent_def)
  moreover have "wallets_indexed ?s'"
    unfolding wallets_indexed_def
  proof (intro allI impI)
    fix i v k
    assume a: "users ?s' i = Some v \<and> walletPublicKey v = Some k \<and> k \<noteq> []"
    show "walletIndex ?s' k = Some i"
    proof (cases "i = uid")
      case True
      with a us w' show ?thesis by (auto simp: wi)
    next
      case False
      with a us have old: "users s i = Some v" by simp
      with a inv have w: "walletIndex s k = Some i"
        by (auto simp: store_inv_def wallets_indexed_def)
      have "k \<noteq> ?pk" using find_None_no_holder[OF inv nf old] a by blast
      with w show ?thesis by (simp add: wi)
    qed
  qed
  ultimately show ?thesis by (simp add: store_inv_def)
qed

lemma store_inv_update_unlink:
  assumes inv: "store_inv s"
  shows "store_inv (snd (mem_update s uid unlink_data))"
proof (cases "users s uid")
  case None
  with inv show ?thesis by (simp add: mem_update_def)
next
  case (Some user)
  let ?s' = "snd (mem_update s uid unlink_data)"
  let ?u' = "spread_user user unlink_data"
  have us: "users ?s' = (users s)(uid \<mapsto> ?u')"
    using Some by (simp add: mem_update_def unlink_data_def Let_def)
  have wi: "walletIndex ?s' = walletIndex s"
    using Some by (simp add: mem_update_def unlink_data_def Let_def)
  have id': "user_id ?u' = user_id user" and w': "walletPublicKey ?u' = None"
    by (simp_all add: spread_user_def unlink_data_def)
  have "ids_consistent ?s'"
    using inv Some by (auto simp: us id' store_inv_def ids_consistent_def)
  moreover have "wallets_indexed ?s'"
    using inv w' by (auto simp: us wi store_inv_def wallets_indexed_def)
  ultimately show ?thesis by (simp add: store_inv_def)
qed

lemma mem_findByEmail_id:
  "store_inv s \<Longrightarrow> mem_findByEmail s em = Some user \<Longrightarrow> users s (user_id user) = Some user"
  by (auto simp: mem_findByEmail_def store_inv_def ids_consistent_def split: if_splits)

lemma store_inv_linkOrCreateUser:
  assumes inv: "store_inv s"
  shows "store_inv (snd (linkOrCreateUser memoryUserStore options now s))"
proof (cases "mem_findByPublicKey s (link_publicKey options)")
  case (Some w)
  with inv show ?thesis by (simp add: linkOrCreateUser_def memoryUserStore_def)
next
  case None
  note c = store_inv_create[OF inv None, of now]
  show ?thesis
  proof (cases "truthy_string (existingUserId options)")
    case True
    show ?thesis
    proof (cases "mem_findByUserId s (the (existingUserId options))")
      case None': None
      with None True inv show ?thesis by (simp add: linkOrCreateUser_def memoryUserStore_def)
    next
      case (Some user)
      then have u: "users s (the (existingUserId options)) = Some user"
        by (simp add: mem_findByUserId_def)
      show ?thesis
      proof (cases "truthy_string (walletPublicKey user)")
        case w: True
        with None True Some inv show ?thesis by (simp add: linkOrCreateUser_def memoryUserStore_def)
      next
        case w: False
        from store_inv_update_link[OF inv None u w, of now] None True Some w
        show ?thesis by (simp add: linkOrCreateUser_def memoryUserStore_def)
      qed
    qed
  next
    case noid: False
    show ?thesis
    proof (cases "truthy_string (link_email options)")
      case False
      with None noid c show ?thesis
        by (simp add: linkOrCreateUser_def memoryUserStore_def)
    next
      case True
      show ?thesis
      proof (cases "mem_findByEmail s (the (link_email options))")
        case None': None
        with None noid True c show ?thesis
          by (simp add: linkOrCreateUser_def memoryUserStore_def)
      next
        case (Some user)
        note u = mem_findByEmail_id[OF inv Some]
        show ?thesis
        proof (cases "truthy_string (walletPublicKey user)")
          case w: True
          with None noid True Some inv show ?thesis
            by (simp add: linkOrCreateUser_def memoryUserStore_def)
        next
          case w: False
          from store_inv_update_link[OF inv None u w, of now] None noid True Some w
          show ?thesis by (simp add: linkOrCreateUser_def memoryUserStore_def)
        qed
      qed
    qed
  qed
qed

lemma store_inv_unlinkWallet:
  "store_inv s \<Longrightarrow> store_inv (snd (unlinkWallet memoryUserStore userId s))"
  using store_inv_update_unlink[of s userId]
  by (simp add: unlinkWallet_def memoryUserStore_def mem_findByUserId_def split: option.splits)

lemma store_inv_call_effect:
  assumes inv: "store_inv s"
  shows "store_inv (call_effect c s)"
proof (cases c)
  case (LinkOrCreateUser options now)
  then show ?thesis using store_inv_linkOrCreateUser[OF inv] by simp
next
  case (UnlinkWallet userId)
  then show ?thesis using store_inv_unlinkWallet[OF inv] by simp
next
  case (GetUserByPublicKey pk)
  then show ?thesis using inv by (simp add: getUserByPublicKey_def memoryUserStore_def)
next
  case (IsWalletLinked pk)
  then show ?thesis using inv by (simp add: isWalletLinked_def memoryUserStore_def)
qed

lemma store_inv_fold: "store_inv s \<Longrightarrow> store_inv (fold call_effect calls s)"
  by (induction calls arbitrary: s) (simp_all add: store_inv_call_effect)

text \<open>
  Claim C5, as amended. After any sequence of manager calls executed one after the other
  on a fresh in-memory store, two stored records that hold the same non-empty
  \<open>walletPublicKey\<close> are one and the same entry of the store.
\<close>

theorem wallet_unique_after_calls:
  assumes "k \<noteq> []"
    and "users (run_calls calls) i = Some u" and "walletPublicKey u = Some k"
    and "users (run_calls calls) j = Some v" and "walletPublicKey v = Some k"
  shows "i = j"
proof -
  have "store_inv (run_calls calls)"
    unfolding run_calls_def by (rule store_inv_fold[OF store_inv_new])
  then have w: "wallets_indexed (run_calls calls)" by (simp add: store_inv_def)
  from w assms(1,2,3) have "walletIndex (run_calls calls) k = Some i"
    unfolding wallets_indexed_def by blast
  moreover from w assms(1,4,5) have "walletIndex (run_calls calls) k = Some j"
    unfolding wallets_indexed_def by blast
  ultimately show ?thesis by simp
qed

theorem wallet_unique_after_calls_witness:
  "''q'' \<noteq> []
   \<and> users (run_calls
        [LinkOrCreateUser \<lparr>link_publicKey = ''k'', existingUserId = None, link_email = None,
                            link_metadata = None\<rparr> 10,
         LinkOrCreateUser \<lparr>link_publicKey = ''q'', existingUserId = None, link_email = None,
                            link_metadata = None\<rparr> 11]) ''2''
       = Some \<lparr>user_id = ''2'', walletPublicKey = Some ''q'', email = None,
                walletConnectedAt = Some 11, metadata = Some []\<rparr>
   \<and> walletPublicKey \<lparr>user_id = ''2'', walletPublicKey = Some ''q'', email = None,
                walletConnectedAt = Some 11, metadata = Some []\<rparr> = Some ''q''
   \<and> ''2'' = ''2''"
proof -
  let ?calls = "[LinkOrCreateUser \<lparr>link_publicKey = ''k'', existingUserId = None, link_email = None,
                            link_metadata = None\<rparr> 10,
         LinkOrCreateUser \<lparr>link_publicKey = ''q'', existingUserId = None, link_email = None,
                            link_metadata = None\<rparr> 11]"
  let ?u = "\<lparr>user_id = ''2'', walletPublicKey = Some ''q'', email = None,
                walletConnectedAt = Some 11, metadata = Some []\<rparr>"
  have h1: "''q'' \<noteq> []" by simp
  have h2: "users (run_calls ?calls) ''2'' = Some ?u" by code_simp
  have h3: "walletPublicKey ?u = Some ''q''" by simp
  from wallet_unique_after_calls[OF h1 h2 h3 h2 h3] h1 h2 h3
  show ?thesis by (simp only: simp_thms)
qed

text \<open>
  Claim C5 as stated, for any key, fails for the empty string: the store indexes a wallet
  key only when it is truthy, so two calls of \<open>linkOrCreateUser\<close> with the public key
  \<open>""\<close> create two records, \<open>"1"\<close> and \<open>"2"\<close>, that both hold it.
\<close>

theorem wallet_unique_counterexample:
  "map_option walletPublicKey
     (users (run_calls
        [LinkOrCreateUser \<lparr>link_publicKey = '''', existingUserId = None, link_email = None,
                            link_metadata = None\<rparr> 10,
         LinkOrCreateUser \<lparr>link_publicKey = '''', existingUserId = None, link_email = None,
                            link_metadata = None\<rparr> 11]) ''1'') = Some (Some '''')
   \<and> map_option walletPublicKey
     (users (run_calls
        [LinkOrCreateUser \<lparr>link_publicKey = '''', existingUserId = None, link_email = None,
                            link_metadata = None\<rparr> 10,
         LinkOrCreateUser \<lparr>link_publicKey = '''', existingUserId = None, link_email = None,
                            link_metadata = None\<rparr> 11]) ''2'') = Some (Some '''')"
  by code_simp

text \<open>
  Claim C1, evaluated on the in-memory store. A user is created for the key \<open>k\<close> and gets
  the id \<open>1\<close>; \<open>unlinkWallet("1")\<close> returns the record with \<open>walletPublicKey\<close> and
  \<open>walletConnectedAt\<close> cleared. The update was passed \<open>walletPublicKey: undefined\<close>, so the
  store's test \<open>data.walletPublicKey !== undefined\<close> fails and the wallet index keeps its
  entry for \<open>k\<close>: afterwards \<open>isWalletLinked(k)\<close> is still true and
  \<open>getUserByPublicKey(k)\<close> still returns user \<open>1\<close>, now without a wallet key.
\<close>

theorem unlink_leaves_wallet_index:
  "map_sum id walletPublicKey
     (fst (linkOrCreateUser memoryUserStore
             \<lparr>link_publicKey = ''k'', existingUserId = None, link_email = None, link_metadata = None\<rparr>
             10 new_MemoryUserStore)) = Inr (Some ''k'')
   \<and> map_sum id (\<lambda>u. (user_id u, walletPublicKey u, walletConnectedAt u))
     (fst (unlinkWallet memoryUserStore ''1''
        (call_effect (LinkOrCreateUser
             \<lparr>link_publicKey = ''k'', existingUserId = None, link_email = None, link_metadata = None\<rparr>
             10) new_MemoryUserStore))) = Inr (''1'', None, None)
   \<and> fst (isWalletLinked memoryUserStore ''k''
        (run_calls [LinkOrCreateUser
             \<lparr>link_publicKey = ''k'', existingUserId = None, link_email = None, link_metadata = None\<rparr>
             10, UnlinkWallet ''1''])) = Inr True
   \<and> map_sum id (map_option (\<lambda>u. (user_id u, walletPublicKey u)))
       (fst (getUserByPublicKey memoryUserStore ''k''
        (run_calls [LinkOrCreateUser
             \<lparr>link_publicKey = ''k'', existingUserId = None, link_email = None, link_metadata = None\<rparr>
             10, UnlinkWallet ''1'']))) = Inr (Some (''1'', None))"
  by code_simp

text \<open>
  Claim C3, as amended. \<open>linkOrCreateUser\<close> has no error handling of its own: when no
  record holds the public key and the \<open>update\<close> or \<open>create\<close> call that the options select
  throws, the method fails with that very error and leaves the store as the failed call
  left it; it does not read by public key again.
\<close>

theorem linkOrCreateUser_propagates_store_error:
  assumes "findByPublicKey userStore (link_publicKey options) s = (Inr None, s1)"
    and "(truthy_string (existingUserId options)
          \<and> findByUserId userStore (the (existingUserId options)) s1 = (Inr (Some user), s2)
          \<and> \<not> truthy_string (walletPublicKey user)
          \<and> update userStore (the (existingUserId options)) (link_update_data options now user) s2
              = (Inl e, s3))
       \<or> (\<not> truthy_string (existingUserId options) \<and> truthy_string (link_email options)
          \<and> findByEmail userStore (the (link_email options)) s1 = (Inr (Some user), s2)
          \<and> \<not> truthy_string (walletPublicKey user)
          \<and> update userStore (user_id user) (link_update_data options now user) s2 = (Inl e, s3))
       \<or> (\<not> truthy_string (existingUserId options) \<and> truthy_string (link_email options)
          \<and> findByEmail userStore (the (link_email options)) s1 = (Inr None, s2)
          \<and> create userStore (link_create_data options now) s2 = (Inl e, s3))
       \<or> (\<not> truthy_string (existingUserId options) \<and> \<not> truthy_string (link_email options)
          \<and> create userStore (link_create_data options now) s1 = (Inl e, s3))"
  shows "linkOrCreateUser userStore options now s = (Inl e, s3)"
  using assms by (auto simp: linkOrCreateUser_def)

theorem linkOrCreateUser_propagates_store_error_witness:
  "findByPublicKey conflicting_store ''k'' 0 = (Inr None, 1)
   \<and> \<not> truthy_string None
   \<and> create conflicting_store
        (link_create_data
           \<lparr>link_publicKey = ''k'', existingUserId = None, link_email = None, link_metadata = None\<rparr> 10) 1
       = (Inl (Error ''duplicate key value violates unique constraint''), 1)
   \<and> linkOrCreateUser conflicting_store
        \<lparr>link_publicKey = ''k'', existingUserId = None, link_email = None, link_metadata = None\<rparr> 10 0
       = (Inl (Error ''duplicate key value violates unique constraint''), 1)"
proof -
  let ?o = "\<lparr>link_publicKey = ''k'', existingUserId = None, link_email = None, link_metadata = None\<rparr>"
  have h1: "findByPublicKey conflicting_store (link_publicKey ?o) 0 = (Inr None, 1)"
    by (simp add: conflicting_store_def)
  have h2: "\<not> truthy_string (existingUserId ?o)" "\<not> truthy_string (link_email ?o)" by simp_all
  have h3: "create conflicting_store (link_create_data ?o 10) 1
       = (Inl (Error ''duplicate key value violates unique constraint''), 1)"
    by (simp add: conflicting_store_def)
  from h2 h3 have d: "\<not> truthy_string (existingUserId ?o) \<and> \<not> truthy_string (link_email ?o)
          \<and> create conflicting_store (link_create_data ?o 10) 1
             = (Inl (Error ''duplicate key value violates unique constraint''), 1)" by blast
  have "linkOrCreateUser conflicting_store ?o 10 0
       = (Inl (Error ''duplicate key value violates unique constraint''), 1)"
    by (rule linkOrCreateUser_propagates_store_error[OF h1]) (use d in blast)
  with h1 h3 show ?thesis by simp
qed

text \<open>
  Claim C3 as stated fails: on a store whose \<open>create\<close> throws a uniqueness violation the
  method returns that raw error, not the manager's already-linked error, after reading by
  public key once in all (the counter in the store's state ends at 1).
\<close>

theorem store_conflict_counterexample:
  "linkOrCreateUser conflicting_store
     \<lparr>link_publicKey = ''k'', existingUserId = None, link_email = None, link_metadata = None\<rparr> 10 0
   = (Inl (Error ''duplicate key value violates unique constraint''), 1)"
  by (simp add: linkOrCreateUser_def conflicting_store_def)

text \<open>
  Claim C6, as amended. For every non-empty public key and every state of the in-memory
  store, \<open>linkOrCreateUser\<close> with that key and no other field returns a record, and a
  second such call returns the same record and leaves the store as the first call left it.
\<close>

theorem linkOrCreateUser_idempotent:
  assumes "pk \<noteq> []"
  shows "\<exists>u s1.
     linkOrCreateUser memoryUserStore
       \<lparr>link_publicKey = pk, existingUserId = None, link_email = None, link_metadata = None\<rparr> t1 s
       = (Inr u, s1)
   \<and> linkOrCreateUser memoryUserStore
       \<lparr>link_publicKey = pk, existingUserId = None, link_email = None, link_metadata = None\<rparr> t2 s1
       = (Inr u, s1)"
proof (cases "mem_findByPublicKey s pk")
  case (Some w)
  then show ?thesis by (simp add: linkOrCreateUser_def memoryUserStore_def)
next
  case None
  let ?o = "\<lparr>link_publicKey = pk, existingUserId = None, link_email = None, link_metadata = None\<rparr>"
  let ?u = "fst (mem_create s (link_create_data ?o t1))"
  let ?s1 = "snd (mem_create s (link_create_data ?o t1))"
  have 1: "linkOrCreateUser memoryUserStore ?o t1 s = (Inr ?u, ?s1)"
    using None by (simp add: linkOrCreateUser_def memoryUserStore_def apfst_def map_prod_def split: prod.splits)
  have "mem_findByPublicKey ?s1 pk = Some ?u"
    using assms
    by (simp add: mem_findByPublicKey_def mem_create_def link_create_data_def Let_def
        number_toString_nonempty)
  then have 2: "linkOrCreateUser memoryUserStore ?o t2 ?s1 = (Inr ?u, ?s1)"
    by (simp add: linkOrCreateUser_def memoryUserStore_def)
  from 1 2 show ?thesis by blast
qed

theorem linkOrCreateUser_idempotent_witness:
  "''k'' \<noteq> [] \<and> (\<exists>u s1.
     linkOrCreateUser memoryUserStore
       \<lparr>link_publicKey = ''k'', existingUserId = None, link_email = None, link_metadata = None\<rparr> 10
       new_MemoryUserStore = (Inr u, s1)
   \<and> linkOrCreateUser memoryUserStore
       \<lparr>link_publicKey = ''k'', existingUserId = None, link_email = None, link_metadata = None\<rparr> 11 s1
       = (Inr u, s1))"
proof -
  have h: "''k'' \<noteq> []" by simp
  from linkOrCreateUser_idempotent[OF h, of 10 new_MemoryUserStore 11] h show ?thesis
    by (simp only: simp_thms)
qed

text \<open>
  Claim C6 as stated, for every public key, fails for the empty string: it is never
  indexed, so each call creates a new record, first \<open>1\<close> and then \<open>2\<close>.
\<close>

theorem linkOrCreateUser_empty_key_counterexample:
  "map_sum id user_id
     (fst (linkOrCreateUser memoryUserStore
        \<lparr>link_publicKey = '''', existingUserId = None, link_email = None, link_metadata = None\<rparr> 10
        new_MemoryUserStore)) = Inr ''1''
   \<and> map_sum id user_id
     (fst (linkOrCreateUser memoryUserStore
        \<lparr>link_publicKey = '''', existingUserId = None, link_email = None, link_metadata = None\<rparr> 11
        (snd (linkOrCreateUser memoryUserStore
           \<lparr>link_publicKey = '''', existingUserId = None, link_email = None, link_metadata = None\<rparr> 10
           new_MemoryUserStore)))) = Inr ''2''"
  by code_simp

section \<open>Sessions over the in-memory store\<close>



text \<open>
  Claim C7, as amended. \<open>getSession\<close> returns \<open>null\<close> when no session is stored under the
  identifier, or when the stored session's \<open>expiresAt\<close> is not zero and lies before the
  current clock reading; afterwards nothing is stored under the identifier, and a further
  \<open>getSession\<close> of it returns \<open>null\<close> at any time.
\<close>

theorem getSession_missing_or_expired:
  assumes "sessions s sessionId = None
         \<or> (\<exists>session e. sessions s sessionId = Some session \<and> expiresAt session = Some e
                \<and> e \<noteq> 0 \<and> e < now)"
  shows "fst (getSession (new_SessionManager memorySessionStore dflt) sessionId now s) = Inr None
       \<and> sessions (snd (getSession (new_SessionManager memorySessionStore dflt) sessionId now s))
            sessionId = None
       \<and> (\<forall>later. fst (getSession (new_SessionManager memorySessionStore dflt) sessionId later
                          (snd (getSession (new_SessionManager memorySessionStore dflt) sessionId now s)))
                    = Inr None)"
  using assms
  by (auto simp: getSession_def new_SessionManager_def memorySessionStore_def mem_get_def
      expired_def)

theorem getSession_missing_or_expired_witness:
  "(sessions (mem_set new_MemorySessionStore ''a''
        \<lparr>session_publicKey = ''pk'', session_userId = None, createdAt = 1, expiresAt = Some 5,
         session_metadata = None\<rparr>) ''a'' = None
    \<or> (\<exists>session e. sessions (mem_set new_MemorySessionStore ''a''
        \<lparr>session_publicKey = ''pk'', session_userId = None, createdAt = 1, expiresAt = Some 5,
         session_metadata = None\<rparr>) ''a'' = Some session \<and> expiresAt session = Some e
         \<and> e \<noteq> 0 \<and> e < 10))
   \<and> fst (getSession (new_SessionManager memorySessionStore None) ''a'' 10
        (mem_set new_MemorySessionStore ''a''
        \<lparr>session_publicKey = ''pk'', session_userId = None, createdAt = 1, expiresAt = Some 5,
         session_metadata = None\<rparr>)) = Inr None
   \<and> sessions (snd (getSession (new_SessionManager memorySessionStore None) ''a'' 10
        (mem_set new_MemorySessionStore ''a''
        \<lparr>session_publicKey = ''pk'', session_userId = None, createdAt = 1, expiresAt = Some 5,
         session_metadata = None\<rparr>))) ''a'' = None
   \<and> (\<forall>later. fst (getSession (new_SessionManager memorySessionStore None) ''a'' later
        (snd (getSession (new_SessionManager memorySessionStore None) ''a'' 10
        (mem_set new_MemorySessionStore ''a''
        \<lparr>session_publicKey = ''pk'', session_userId = None, createdAt = 1, expiresAt = Some 5,
         session_metadata = None\<rparr>)))) = Inr None)"
proof -
  let ?x = "\<lparr>session_publicKey = ''pk'', session_userId = None, createdAt = 1, expiresAt = Some 5,
         session_metadata = None\<rparr>"
  let ?s = "mem_set new_MemorySessionStore ''a'' ?x"
  have "sessions ?s ''a'' = Some ?x \<and> expiresAt ?x = Some 5 \<and> (5::int) \<noteq> 0 \<and> (5::int) < 10"
    by (simp add: mem_set_def)
  then have h: "sessions ?s ''a'' = None
         \<or> (\<exists>session e. sessions ?s ''a'' = Some session \<and> expiresAt session = Some e
                \<and> e \<noteq> 0 \<and> e < 10)"
    by blast
  from getSession_missing_or_expired[OF h, of None] h show ?thesis by (simp only: simp_thms)
qed

text \<open>
  Claim C7 as stated, for every \<open>expiresAt\<close> in the past, fails at \<open>expiresAt = 0\<close>: the
  store tests \<open>session.expiresAt && session.expiresAt < Date.now()\<close>, zero is falsy, and
  the session is returned at time 1000.
\<close>

theorem getSession_epoch_expiry_counterexample:
  "fst (getSession (new_SessionManager memorySessionStore None) ''a'' 1000
        (mem_set new_MemorySessionStore ''a''
           \<lparr>session_publicKey = ''pk'', session_userId = None, createdAt = 0, expiresAt = Some 0,
            session_metadata = None\<rparr>))
   = Inr (Some \<lparr>session_publicKey = ''pk'', session_userId = None, createdAt = 0,
                 expiresAt = Some 0, session_metadata = None\<rparr>)"
  by code_simp

section \<open>Optional request authenticator\<close>

lemma valid_result_publicKey:
  "valid (verifyWalletSignature ext pk sg m ct ma now) \<Longrightarrow>
   publicKey (verifyWalletSignature ext pk sg m ct ma now) = Some pk"
  by (simp add: verifyWalletSignature_def split: if_splits)

lemma element_numeral: "element (x # xs) (numeral n) = element xs (pred_numeral n)"
  by (simp add: numeral_eq_Suc)

lemma split_on_nonempty: "split_on d s \<noteq> []"
  by (induction s) (auto split: list.splits)

text \<open>
  Claim C10. On every request the optional handler calls \<open>next()\<close> exactly once and does
  nothing else but, when decoding throws, log to the console: it never answers and never
  calls an unauthorized handler, also when a well-formed credential fails verification.
  The request leaves it with \<open>walletPublicKey\<close> set to the presented key when the request
  presents a credential that the verifier accepts, and unchanged in every other case.
\<close>

theorem optional_middleware_always_continues:
  "(snd (optionalWalletAuthMiddleware ext options req now) = [CallNext]
    \<or> snd (optionalWalletAuthMiddleware ext options req now) = [ConsoleError, CallNext])
   \<and> fst (optionalWalletAuthMiddleware ext options req now) =
       (case presented_credential ext options req of
          None \<Rightarrow> req
        | Some (pk, sg, m) \<Rightarrow>
            if valid (verifyWalletSignature ext pk sg m
                        (default_to (opt_checkTimestamp options) True)
                        (default_to (opt_maxAgeMs options) 300000) now)
            then req\<lparr>req_walletPublicKey := Some pk\<rparr>
            else req)"
proof (cases "headers req (toLowerCase (default_to (headerName options) ''Authorization''))")
  case HeaderUndefined
  then show ?thesis by (simp add: optionalWalletAuthMiddleware_def presented_credential_def)
next
  case (HeaderArray vs)
  then show ?thesis by (simp add: optionalWalletAuthMiddleware_def presented_credential_def)
next
  case (HeaderString h)
  show ?thesis
  proof (cases "prefix ''Wallet '' h")
    case False
    with HeaderString show ?thesis
      by (simp add: optionalWalletAuthMiddleware_def presented_credential_def)
  next
    case True
    then have ne: "h \<noteq> []" by auto
    show ?thesis
    proof (cases "split_on CHR '':'' (drop 7 h)")
      case Nil
      with split_on_nonempty show ?thesis by blast
    next
      case c1: (Cons pk r1)
      show ?thesis
      proof (cases r1)
        case Nil
        with HeaderString True ne c1 show ?thesis
          by (simp add: optionalWalletAuthMiddleware_def presented_credential_def Let_def
                element_numeral)
      next
        case c2: (Cons sg r2)
        show ?thesis
        proof (cases r2)
          case Nil
          with HeaderString True ne c1 c2 show ?thesis
            by (simp add: optionalWalletAuthMiddleware_def presented_credential_def Let_def
                element_numeral)
        next
          case c3: (Cons enc r3)
          from HeaderString True ne c1 c2 c3 show ?thesis
            by (cases "decodeURIComponent ext enc")
               (auto simp: optionalWalletAuthMiddleware_def presented_credential_def Let_def
                  valid_result_publicKey element_numeral)
        qed
      qed
    qed
  qed
qed

theorem optional_middleware_always_continues_witness:
  "(snd (optionalWalletAuthMiddleware accepting_externals default_options wallet_request 1000)
      = [CallNext]
    \<or> snd (optionalWalletAuthMiddleware accepting_externals default_options wallet_request 1000)
      = [ConsoleError, CallNext])
   \<and> fst (optionalWalletAuthMiddleware accepting_externals default_options wallet_request 1000) =
       (case presented_credential accepting_externals default_options wallet_request of
          None \<Rightarrow> wallet_request
        | Some (pk, sg, m) \<Rightarrow>
            if valid (verifyWalletSignature accepting_externals pk sg m
                        (default_to (opt_checkTimestamp default_options) True)
                        (default_to (opt_maxAgeMs default_options) 300000) 1000)
            then wallet_request\<lparr>req_walletPublicKey := Some pk\<rparr>
            else wallet_request)"
  by (rule optional_middleware_always_continues)

end
